theory Spec2Isabelle
  imports Complex_Main "HOL-Library.Word" "HOL-Library.Log_Nat"
begin

unbundle bit_operations_syntax

section \<open>The INA219 driver of the USB tester firmware (INA219.cpp)\<close>

subsection \<open>Constants of INA219.h\<close>

text \<open>
  INA219.cpp includes INA219.h, which is not among the sources. The register
  identifiers and the configuration bit masks it defines are therefore taken
  as parameters: every function of the driver that names one of them receives
  the record below. Register identifiers are bytes (they are passed as
  \<^verbatim>\<open>uint8_t reg\<close>), configuration masks are combined into a \<^verbatim>\<open>uint16_t\<close>.
\<close>

record ina219_h =
  INA219_REG_CONFIG :: "8 word"
  INA219_REG_SHUNTVOLTAGE :: "8 word"
  INA219_REG_BUSVOLTAGE :: "8 word"
  INA219_REG_CURRENT :: "8 word"
  INA219_REG_CALIBRATION :: "8 word"
  INA219_CONFIG_BVOLTAGERANGE_16V :: "16 word"
  INA219_CONFIG_BVOLTAGERANGE_32V :: "16 word"
  INA219_CONFIG_GAIN_1_40MV :: "16 word"
  INA219_CONFIG_GAIN_8_320MV :: "16 word"
  INA219_CONFIG_BADCRES_12BIT :: "16 word"
  INA219_CONFIG_SADCRES_12BIT_1S_532US :: "16 word"
  INA219_CONFIG_MODE_SANDBVOLT_CONTINUOUS :: "16 word"

subsection \<open>The two-wire bus and a register store behind it\<close>

text \<open>
  The driver talks to the chip through the global \<^verbatim>\<open>Wire\<close> object of the
  platform. It is an external collaborator; what the driver relies on is
  written out here as explicit state:
  \<^item> the transmit buffer, opened by \<^verbatim>\<open>beginTransmission\<close>, filled by
    \<^verbatim>\<open>write\<close> and sent by \<^verbatim>\<open>endTransmission\<close>;
  \<^item> the receive buffer, filled by \<^verbatim>\<open>requestFrom\<close> and consumed by
    \<^verbatim>\<open>read\<close>, which yields \<open>-1\<close> when nothing is left;
  \<^item> behind the bus, for every device address, a register pointer and a
    register store that keeps the two data bytes of the last write to each
    register and answers a read with the two bytes of the register the
    pointer selects;
  \<^item> a log of every transmission sent (address and bytes), in order.
  \<^verbatim>\<open>Wire.begin()\<close> is recorded in \<open>enabled\<close>; the register store answers
  whether or not it has been called.
\<close>

record wire =
  enabled :: bool
  txAddress :: "8 word"
  txBuffer :: "8 word list"
  rxBuffer :: "8 word list"
  dev_pointer :: "8 word \<Rightarrow> 8 word"
  dev_store :: "8 word \<Rightarrow> 8 word \<Rightarrow> 8 word \<times> 8 word"
  sent :: "(8 word \<times> 8 word list) list"

definition Wire_begin :: "wire \<Rightarrow> wire" where
  "Wire_begin w = w\<lparr>enabled := True, txBuffer := [], rxBuffer := []\<rparr>"

definition Wire_beginTransmission :: "8 word \<Rightarrow> wire \<Rightarrow> wire" where
  "Wire_beginTransmission a w = w\<lparr>txAddress := a, txBuffer := []\<rparr>"

definition Wire_write :: "8 word \<Rightarrow> wire \<Rightarrow> wire" where
  "Wire_write b w = w\<lparr>txBuffer := txBuffer w @ [b]\<rparr>"

text \<open>
  What the register store does with a transmission: the first byte selects the
  register; two further bytes are stored in it, first byte first.
\<close>

fun device_receive ::
  "8 word list \<Rightarrow> 8 word \<times> (8 word \<Rightarrow> 8 word \<times> 8 word) \<Rightarrow> 8 word \<times> (8 word \<Rightarrow> 8 word \<times> 8 word)"
where
  "device_receive [] (p, st) = (p, st)"
| "device_receive [r] (p, st) = (r, st)"
| "device_receive [r, b1] (p, st) = (r, st)"
| "device_receive (r # b1 # b2 # bs) (p, st) = (r, st(r := (b1, b2)))"

definition Wire_endTransmission :: "wire \<Rightarrow> wire" where
  "Wire_endTransmission w =
     (let a = txAddress w;
          (p, st) = device_receive (txBuffer w) (dev_pointer w a, dev_store w a)
      in w\<lparr>txBuffer := [],
           dev_pointer := (dev_pointer w)(a := p),
           dev_store := (dev_store w)(a := st),
           sent := sent w @ [(a, txBuffer w)]\<rparr>)"

definition Wire_requestFrom :: "8 word \<Rightarrow> nat \<Rightarrow> wire \<Rightarrow> wire" where
  "Wire_requestFrom a n w =
     (let (b1, b2) = dev_store w a (dev_pointer w a)
      in w\<lparr>rxBuffer := take n [b1, b2]\<rparr>)"

text \<open>\<^verbatim>\<open>Wire.read()\<close> returns an \<^verbatim>\<open>int\<close>: the next byte, or \<open>-1\<close>.\<close>

definition Wire_read :: "wire \<Rightarrow> int \<times> wire" where
  "Wire_read w =
     (case rxBuffer w of
        [] \<Rightarrow> (- 1, w)
      | b # bs \<Rightarrow> (uint b, w\<lparr>rxBuffer := bs\<rparr>))"

text \<open>Test fixture: make register \<open>r\<close> of the device at \<open>a\<close> hold the raw value \<open>v\<close>.\<close>

definition mock_register :: "8 word \<Rightarrow> 8 word \<Rightarrow> 16 word \<Rightarrow> wire \<Rightarrow> wire" where
  "mock_register a r v w =
     w\<lparr>dev_store := (dev_store w)(a := (dev_store w a)(r := (ucast (drop_bit 8 v), ucast v)))\<rparr>"

text \<open>
  What the chip is asked to store, read off the log: a transmission of a
  register byte followed by two data bytes writes the 16-bit value whose most
  significant byte came first. Transmissions of any other length (such as the
  single register byte that precedes a read) write nothing.
\<close>

definition frame_decode :: "8 word list \<Rightarrow> (8 word \<times> 16 word) option" where
  "frame_decode bs =
     (case bs of
        [r, b1, b2] \<Rightarrow> Some (r, word_of_int (uint b1 * 256 + uint b2))
      | _ \<Rightarrow> None)"

definition register_writes :: "wire \<Rightarrow> (8 word \<times> 8 word \<times> 16 word) list" where
  "register_writes w =
     List.map_filter (\<lambda>(a, bs). map_option (\<lambda>(r, v). (a, r, v)) (frame_decode bs)) (sent w)"

subsection \<open>The driver object\<close>

text \<open>
  The three members the code assigns. Their declarations are in INA219.h; the
  address is passed as \<^verbatim>\<open>uint8_t\<close>, and the only values ever stored in the
  two dividers are 0, 1, 2, 10, 20 and 25, so they are natural numbers here.
\<close>

record ina219 =
  ina219_i2caddr :: "8 word"
  ina219_currentDivider_mA :: nat
  ina219_powerDivider_mW :: nat

subsection \<open>Bus primitives\<close>

text \<open>
  \<^verbatim>\<open>wireWriteRegister\<close>, branch \<^verbatim>\<open>ARDUINO >= 100\<close> (the other branch sends
  the same three bytes through \<^verbatim>\<open>Wire.send\<close>).
\<close>

definition wireWriteRegister :: "ina219 \<Rightarrow> 8 word \<Rightarrow> 16 word \<Rightarrow> wire \<Rightarrow> wire" where
  "wireWriteRegister d reg val w =
     (let w1 = Wire_beginTransmission (ina219_i2caddr d) w;
          w2 = Wire_write reg w1;
          w3 = Wire_write (ucast (drop_bit 8 val AND 0xFF)) w2;
          w4 = Wire_write (ucast (val AND 0xFF)) w3
      in Wire_endTransmission w4)"

text \<open>
  \<^verbatim>\<open>wireReadRegister\<close>: the value stored through the pointer argument is the
  first component of the result. The two calls of \<^verbatim>\<open>Wire.read()\<close> in
  \<^verbatim>\<open>(Wire.read() << 8) + Wire.read()\<close> are taken left to right; the sum is an
  \<^verbatim>\<open>int\<close> and its conversion to \<^verbatim>\<open>uint16_t\<close> keeps the low 16 bits.
\<close>

definition wireReadRegister :: "ina219 \<Rightarrow> 8 word \<Rightarrow> wire \<Rightarrow> 16 word \<times> wire" where
  "wireReadRegister d reg w =
     (let w1 = Wire_beginTransmission (ina219_i2caddr d) w;
          w2 = Wire_write reg w1;
          w3 = Wire_endTransmission w2;
          w4 = Wire_requestFrom (ina219_i2caddr d) 2 w3;
          (hi, w5) = Wire_read w4;
          (lo, w6) = Wire_read w5
      in (word_of_int (push_bit 8 hi + lo), w6))"

subsection \<open>Calibration presets, constructor, begin\<close>

definition ina219SetCalibration_32V_2A :: "ina219_h \<Rightarrow> ina219 \<Rightarrow> wire \<Rightarrow> ina219 \<times> wire" where
  "ina219SetCalibration_32V_2A h d w =
     (let d1 = d\<lparr>ina219_currentDivider_mA := 10\<rparr>;
          d2 = d1\<lparr>ina219_powerDivider_mW := 2\<rparr>;
          w1 = wireWriteRegister d2 (INA219_REG_CALIBRATION h) 0x1000 w;
          config = INA219_CONFIG_BVOLTAGERANGE_32V h OR
                   INA219_CONFIG_GAIN_8_320MV h OR
                   INA219_CONFIG_BADCRES_12BIT h OR
                   INA219_CONFIG_SADCRES_12BIT_1S_532US h OR
                   INA219_CONFIG_MODE_SANDBVOLT_CONTINUOUS h
      in (d2, wireWriteRegister d2 (INA219_REG_CONFIG h) config w1))"

definition ina219SetCalibration_32V_1A :: "ina219_h \<Rightarrow> ina219 \<Rightarrow> wire \<Rightarrow> ina219 \<times> wire" where
  "ina219SetCalibration_32V_1A h d w =
     (let d1 = d\<lparr>ina219_currentDivider_mA := 25\<rparr>;
          d2 = d1\<lparr>ina219_powerDivider_mW := 1\<rparr>;
          w1 = wireWriteRegister d2 (INA219_REG_CALIBRATION h) 0x2800 w;
          config = INA219_CONFIG_BVOLTAGERANGE_32V h OR
                   INA219_CONFIG_GAIN_8_320MV h OR
                   INA219_CONFIG_BADCRES_12BIT h OR
                   INA219_CONFIG_SADCRES_12BIT_1S_532US h OR
                   INA219_CONFIG_MODE_SANDBVOLT_CONTINUOUS h
      in (d2, wireWriteRegister d2 (INA219_REG_CONFIG h) config w1))"

definition ina219SetCalibration_16V_400mA :: "ina219_h \<Rightarrow> ina219 \<Rightarrow> wire \<Rightarrow> ina219 \<times> wire" where
  "ina219SetCalibration_16V_400mA h d w =
     (let d1 = d\<lparr>ina219_currentDivider_mA := 20\<rparr>;
          d2 = d1\<lparr>ina219_powerDivider_mW := 1\<rparr>;
          w1 = wireWriteRegister d2 (INA219_REG_CALIBRATION h) 8192 w;
          config = INA219_CONFIG_BVOLTAGERANGE_16V h OR
                   INA219_CONFIG_GAIN_1_40MV h OR
                   INA219_CONFIG_BADCRES_12BIT h OR
                   INA219_CONFIG_SADCRES_12BIT_1S_532US h OR
                   INA219_CONFIG_MODE_SANDBVOLT_CONTINUOUS h
      in (d2, wireWriteRegister d2 (INA219_REG_CONFIG h) config w1))"

text \<open>The constructor \<^verbatim>\<open>INA219::INA219(uint8_t addr)\<close>.\<close>

definition INA219 :: "8 word \<Rightarrow> ina219" where
  "INA219 addr =
     \<lparr>ina219_i2caddr = addr, ina219_currentDivider_mA = 0, ina219_powerDivider_mW = 0\<rparr>"

text \<open>\<^verbatim>\<open>INA219::begin()\<close> (\<open>begin\<close> alone is a keyword of the theory language).\<close>

definition INA219_begin :: "ina219_h \<Rightarrow> ina219 \<Rightarrow> wire \<Rightarrow> ina219 \<times> wire" where
  "INA219_begin h d w = ina219SetCalibration_32V_2A h d (Wire_begin w)"

subsection \<open>Integer accessors\<close>

text \<open>
  The accessors return \<^verbatim>\<open>int16_t\<close>: a \<open>16 word\<close> here, read as a signed
  number by \<open>sint\<close>. In \<^verbatim>\<open>(value >> 3) * 4\<close> and \<^verbatim>\<open>(value >> 3) << 2\<close>
  the operand is promoted to \<^verbatim>\<open>int\<close> (or \<^verbatim>\<open>unsigned\<close> where \<^verbatim>\<open>int\<close> has
  16 bits) and the cast keeps the low 16 bits, which is arithmetic on
  \<open>16 word\<close>.
\<close>

definition getBusVoltage_raw :: "ina219_h \<Rightarrow> ina219 \<Rightarrow> wire \<Rightarrow> 16 word \<times> wire" where
  "getBusVoltage_raw h d w =
     (let (val, w1) = wireReadRegister d (INA219_REG_BUSVOLTAGE h) w
      in (drop_bit 3 val * 4, w1))"

definition getShuntVoltage_raw :: "ina219_h \<Rightarrow> ina219 \<Rightarrow> wire \<Rightarrow> 16 word \<times> wire" where
  "getShuntVoltage_raw h d w =
     (let (val, w1) = wireReadRegister d (INA219_REG_SHUNTVOLTAGE h) w
      in (val, w1))"

definition getCurrent_raw :: "ina219_h \<Rightarrow> ina219 \<Rightarrow> wire \<Rightarrow> 16 word \<times> wire" where
  "getCurrent_raw h d w =
     (let (val, w1) = wireReadRegister d (INA219_REG_CURRENT h) w
      in (val, w1))"

definition getShuntVoltage_mV :: "ina219_h \<Rightarrow> ina219 \<Rightarrow> wire \<Rightarrow> 16 word \<times> wire" where
  "getShuntVoltage_mV h d w =
     (let (val, w1) = wireReadRegister d (INA219_REG_SHUNTVOLTAGE h) w;
          val' = (if val \<ge> 650 then 0 else val)
      in (val', w1))"

definition getBusVoltage_V :: "ina219_h \<Rightarrow> ina219 \<Rightarrow> wire \<Rightarrow> 16 word \<times> wire" where
  "getBusVoltage_V h d w =
     (let (val, w1) = wireReadRegister d (INA219_REG_BUSVOLTAGE h) w
      in (push_bit 2 (drop_bit 3 val), w1))"

subsection \<open>Floating-point arithmetic of \<^verbatim>\<open>getCurrent_mA\<close>\<close>

text \<open>
  \<^verbatim>\<open>getCurrent_mA\<close> computes in \<^verbatim>\<open>float\<close> and \<^verbatim>\<open>double\<close>. A binary
  floating-point format is given by its precision (bits of the significand,
  the hidden bit included) and its exponent range; a finite number of the
  format is a rational. \<^verbatim>\<open>float\<close> is binary32; \<^verbatim>\<open>double\<close> is binary64 on
  most platforms and binary32 on 8-bit AVR boards, so the format of
  \<^verbatim>\<open>double\<close> is a parameter of \<^verbatim>\<open>getCurrent_mA\<close>.
\<close>

record fformat =
  precision :: nat
  emin :: int
  emax :: int

definition binary32 :: fformat where
  "binary32 = \<lparr>precision = 24, emin = - 126, emax = 127\<rparr>"

definition binary64 :: fformat where
  "binary64 = \<lparr>precision = 53, emin = - 1022, emax = 1023\<rparr>"

text \<open>For \<open>x > 0\<close>: the exponent \<open>e\<close> with \<open>2 powi e \<le> x < 2 powi (e + 1)\<close>.\<close>

definition ilog2 :: "rat \<Rightarrow> int" where
  "ilog2 x =
     (let (p, q) = quotient_of x; k = bitlen p - bitlen q
      in if 2 powi k \<le> x then k else k - 1)"

text \<open>Nearest integer, a tie going to the even one.\<close>

definition round_half_even :: "rat \<Rightarrow> int" where
  "round_half_even y =
     (let n = \<lfloor>y\<rfloor>; r = y - of_int n
      in if r < 1 / 2 then n
         else if 1 / 2 < r then n + 1
         else if even n then n else n + 1)"

text \<open>
  The distance between neighbouring numbers of the format around \<open>x\<close>
  (subnormal numbers share the spacing of the smallest normal ones).
\<close>

definition quantum :: "fformat \<Rightarrow> rat \<Rightarrow> rat" where
  "quantum f x = 2 powi (max (ilog2 \<bar>x\<bar>) (emin f) - int (precision f) + 1)"

datatype fault = DivideByZero | FloatOverflow | CastOutOfRange

text \<open>
  Rounding a rational result into a format, to nearest, ties to even. A result
  beyond the largest finite number is not representable: that, a division by
  zero, and a conversion to \<^verbatim>\<open>int16_t\<close> of a value outside its range are
  undefined behaviour in C++, and faults here.
\<close>

definition fp_round :: "fformat \<Rightarrow> rat \<Rightarrow> fault + rat" where
  "fp_round f x =
     (let q = quantum f x; r = of_int (round_half_even (x / q)) * q
      in if 2 powi (emax f + 1) \<le> \<bar>r\<bar> then Inl FloatOverflow else Inr r)"

definition fp_divide :: "fformat \<Rightarrow> rat \<Rightarrow> rat \<Rightarrow> fault + rat" where
  "fp_divide f a b = (if b = 0 then Inl DivideByZero else fp_round f (a / b))"

definition trunc_toward_zero :: "rat \<Rightarrow> int" where
  "trunc_toward_zero y = (if 0 \<le> y then \<lfloor>y\<rfloor> else \<lceil>y\<rceil>)"

definition cast_int16 :: "rat \<Rightarrow> fault + 16 word" where
  "cast_int16 y =
     (let n = trunc_toward_zero y
      in if - 32768 \<le> n \<and> n \<le> 32767 then Inr (word_of_int n) else Inl CastOutOfRange)"

text \<open>
  \<^verbatim>\<open>getCurrent_mA\<close>: the raw register, read as \<^verbatim>\<open>int16_t\<close>, is converted to
  \<^verbatim>\<open>float\<close>; the divider is converted to \<^verbatim>\<open>float\<close> and divides it; the
  quotient is converted to \<^verbatim>\<open>double\<close> for the addition of the \<^verbatim>\<open>double\<close>
  constant \<open>0.5\<close>; the sum is cast to \<^verbatim>\<open>int16_t\<close>.
\<close>

definition getCurrent_mA ::
  "ina219_h \<Rightarrow> fformat \<Rightarrow> ina219 \<Rightarrow> wire \<Rightarrow> fault + (16 word \<times> wire)"
where
  "getCurrent_mA h dbl d w =
     (let (val, w1) = wireReadRegister d (INA219_REG_CURRENT h) w
      in case fp_round binary32 (of_int (sint val)) of Inl e \<Rightarrow> Inl e | Inr valueDec \<Rightarrow>
         case fp_round binary32 (of_nat (ina219_currentDivider_mA d)) of Inl e \<Rightarrow> Inl e | Inr dv \<Rightarrow>
         case fp_divide binary32 valueDec dv of Inl e \<Rightarrow> Inl e | Inr valueDec' \<Rightarrow>
         case fp_round dbl valueDec' of Inl e \<Rightarrow> Inl e | Inr x \<Rightarrow>
         case fp_round dbl (x + 1 / 2) of Inl e \<Rightarrow> Inl e | Inr y \<Rightarrow>
         case cast_int16 y of Inl e \<Rightarrow> Inl e | Inr r \<Rightarrow> Inr (r, w1))"

subsection \<open>Sequences of calls on one driver object\<close>

text \<open>
  The public methods are called in any order by the host program. A call acts
  on the driver object and the bus; the value an accessor returns is dropped
  here. A call that runs into undefined behaviour ends the sequence with the
  fault.
\<close>

datatype call =
    Call_begin
  | Call_SetCalibration_32V_2A
  | Call_SetCalibration_32V_1A
  | Call_SetCalibration_16V_400mA
  | Call_getBusVoltage_raw
  | Call_getShuntVoltage_raw
  | Call_getCurrent_raw
  | Call_getShuntVoltage_mV
  | Call_getBusVoltage_V
  | Call_getCurrent_mA

fun applies_preset :: "call \<Rightarrow> bool" where
  "applies_preset Call_begin = True"
| "applies_preset Call_SetCalibration_32V_2A = True"
| "applies_preset Call_SetCalibration_32V_1A = True"
| "applies_preset Call_SetCalibration_16V_400mA = True"
| "applies_preset _ = False"

fun exec :: "ina219_h \<Rightarrow> fformat \<Rightarrow> call \<Rightarrow> ina219 \<times> wire \<Rightarrow> fault + ina219 \<times> wire" where
  "exec h dbl Call_begin (d, w) = Inr (INA219_begin h d w)"
| "exec h dbl Call_SetCalibration_32V_2A (d, w) = Inr (ina219SetCalibration_32V_2A h d w)"
| "exec h dbl Call_SetCalibration_32V_1A (d, w) = Inr (ina219SetCalibration_32V_1A h d w)"
| "exec h dbl Call_SetCalibration_16V_400mA (d, w) = Inr (ina219SetCalibration_16V_400mA h d w)"
| "exec h dbl Call_getBusVoltage_raw (d, w) = Inr (d, snd (getBusVoltage_raw h d w))"
| "exec h dbl Call_getShuntVoltage_raw (d, w) = Inr (d, snd (getShuntVoltage_raw h d w))"
| "exec h dbl Call_getCurrent_raw (d, w) = Inr (d, snd (getCurrent_raw h d w))"
| "exec h dbl Call_getShuntVoltage_mV (d, w) = Inr (d, snd (getShuntVoltage_mV h d w))"
| "exec h dbl Call_getBusVoltage_V (d, w) = Inr (d, snd (getBusVoltage_V h d w))"
| "exec h dbl Call_getCurrent_mA (d, w) =
     (case getCurrent_mA h dbl d w of Inl e \<Rightarrow> Inl e | Inr (r, w1) \<Rightarrow> Inr (d, w1))"

fun run :: "ina219_h \<Rightarrow> fformat \<Rightarrow> call list \<Rightarrow> ina219 \<times> wire \<Rightarrow> fault + ina219 \<times> wire" where
  "run h dbl [] s = Inr s"
| "run h dbl (c # cs) s = (case exec h dbl c s of Inl e \<Rightarrow> Inl e | Inr s1 \<Rightarrow> run h dbl cs s1)"

text \<open>The dividers of a driver object to which a preset has been applied.\<close>

definition calibrated :: "ina219 \<Rightarrow> bool" where
  "calibrated d \<longleftrightarrow>
     (ina219_currentDivider_mA d = 10 \<or> ina219_currentDivider_mA d = 20
        \<or> ina219_currentDivider_mA d = 25)
     \<and> (ina219_powerDivider_mW d = 1 \<or> ina219_powerDivider_mW d = 2)"

subsection \<open>A concrete chip and bus\<close>

text \<open>
  For concrete runs: the register numbers and configuration masks of the
  INA219 data sheet, and a bus on which nothing has happened yet, with all
  registers of all devices zero.
\<close>

definition datasheet_h :: ina219_h where
  "datasheet_h =
     \<lparr>INA219_REG_CONFIG = 0x00,
      INA219_REG_SHUNTVOLTAGE = 0x01,
      INA219_REG_BUSVOLTAGE = 0x02,
      INA219_REG_CURRENT = 0x04,
      INA219_REG_CALIBRATION = 0x05,
      INA219_CONFIG_BVOLTAGERANGE_16V = 0x0000,
      INA219_CONFIG_BVOLTAGERANGE_32V = 0x2000,
      INA219_CONFIG_GAIN_1_40MV = 0x0000,
      INA219_CONFIG_GAIN_8_320MV = 0x1800,
      INA219_CONFIG_BADCRES_12BIT = 0x0400,
      INA219_CONFIG_SADCRES_12BIT_1S_532US = 0x0018,
      INA219_CONFIG_MODE_SANDBVOLT_CONTINUOUS = 0x0007\<rparr>"

definition idle_wire :: wire where
  "idle_wire =
     \<lparr>enabled = False, txAddress = 0, txBuffer = [], rxBuffer = [],
      dev_pointer = (\<lambda>a. 0), dev_store = (\<lambda>a r. (0, 0)), sent = []\<rparr>"

section \<open>Properties\<close>

subsection \<open>Bytes on the bus\<close>

lemma uint_ucast_low: "uint (ucast (y :: 16 word) :: 8 word) = uint y mod 256"
  by (simp add: unsigned_ucast_eq take_bit_eq_mod)

lemma uint_drop_high: "uint (drop_bit 8 (x :: 16 word)) = uint x div 256"
proof -
  have "uint x mod 65536 = uint x"
    using uint_idem [of x] by simp
  then show ?thesis
    by (subst unsigned_drop_bit_eq) (simp add: drop_bit_eq_div take_bit_eq_mod)
qed

lemma and_255: "(x :: 16 word) AND 0xFF = take_bit 8 x"
  using take_bit_eq_mask [of 8 x] by (simp add: mask_numeral)

lemma ucast_and_255: "(ucast ((x :: 16 word) AND 0xFF) :: 8 word) = ucast x"
proof -
  have "uint (x AND 0xFF) = uint x mod 256"
    by (subst and_255, subst unsigned_take_bit_eq) (simp add: take_bit_eq_mod)
  then have "uint (ucast (x AND 0xFF) :: 8 word) = uint (ucast x :: 8 word)"
    by (simp only: uint_ucast_low) simp
  then show ?thesis
    by (rule word_eq_iff_unsigned [where ?'a = int, THEN iffD2])
qed

lemma int_of_two_bytes:
  "0 \<le> u \<Longrightarrow> u < 65536 \<Longrightarrow> u div 256 mod 256 * 256 + u mod 256 = (u :: int)"
proof -
  assume "0 \<le> u" and "u < 65536"
  then have "u div 256 < 256"
    by simp
  moreover from \<open>0 \<le> u\<close> have "0 \<le> u div 256"
    by simp
  ultimately have "u div 256 mod 256 = u div 256"
    by simp
  then show ?thesis
    by simp
qed

lemma word16_of_bytes:
  "word_of_int (push_bit 8 (uint (ucast (drop_bit 8 x) :: 8 word)) + uint (ucast x :: 8 word))
     = (x :: 16 word)"
proof -
  have "uint x < 65536"
    using uint_bounded [of x] by simp
  then have "push_bit 8 (uint (ucast (drop_bit 8 x) :: 8 word)) + uint (ucast x :: 8 word) = uint x"
    by (simp add: uint_ucast_low uint_drop_high push_bit_eq_mult int_of_two_bytes)
  then show ?thesis
    by (simp only: word_of_int_uint)
qed

lemma wireWriteRegister_sent:
  "sent (wireWriteRegister d r x w)
     = sent w @ [(ina219_i2caddr d, [r, ucast (drop_bit 8 x), ucast x])]"
  by (simp add: wireWriteRegister_def Wire_beginTransmission_def Wire_write_def
      Wire_endTransmission_def ucast_and_255 Let_def)

lemma wireWriteRegister_store:
  "dev_store (wireWriteRegister d r x w) (ina219_i2caddr d) r
     = (ucast (drop_bit 8 x), ucast x)"
  by (simp add: wireWriteRegister_def Wire_beginTransmission_def Wire_write_def
      Wire_endTransmission_def ucast_and_255 Let_def)

lemma wireWriteRegister_enabled:
  "enabled (wireWriteRegister d r x w) = enabled w"
  by (simp add: wireWriteRegister_def Wire_beginTransmission_def Wire_write_def
      Wire_endTransmission_def Let_def split: prod.splits)

lemma wireReadRegister_value:
  "dev_store w (ina219_i2caddr d) r = (b1, b2) \<Longrightarrow>
   fst (wireReadRegister d r w) = word_of_int (push_bit 8 (uint b1) + uint b2)"
  by (simp add: wireReadRegister_def Wire_beginTransmission_def Wire_write_def
      Wire_endTransmission_def Wire_requestFrom_def Wire_read_def Let_def)

lemma wireReadRegister_mock:
  "fst (wireReadRegister d r (mock_register (ina219_i2caddr d) r v w)) = v"
proof -
  have "dev_store (mock_register (ina219_i2caddr d) r v w) (ina219_i2caddr d) r
          = (ucast (drop_bit 8 v), ucast v)"
    by (simp add: mock_register_def)
  from wireReadRegister_value [OF this] show ?thesis
    by (simp only: word16_of_bytes)
qed

text \<open>
  Claim C6. For every 16-bit value \<open>x\<close> and register \<open>r\<close>: \<^verbatim>\<open>wireWriteRegister\<close>
  transmits the register byte, then the most significant byte of \<open>x\<close>, then
  the least significant one; and reading \<open>r\<close> back with
  \<^verbatim>\<open>wireReadRegister\<close> from the register store that recorded the two data
  bytes yields exactly \<open>x\<close>.
\<close>

theorem write_then_read_roundtrip:
  "sent (wireWriteRegister d r x w)
     = sent w @ [(ina219_i2caddr d, [r, ucast (drop_bit 8 x), ucast x])]
   \<and> fst (wireReadRegister d r (wireWriteRegister d r x w)) = x"
proof
  show "sent (wireWriteRegister d r x w)
     = sent w @ [(ina219_i2caddr d, [r, ucast (drop_bit 8 x), ucast x])]"
    by (rule wireWriteRegister_sent)
  from wireReadRegister_value [OF wireWriteRegister_store]
  show "fst (wireReadRegister d r (wireWriteRegister d r x w)) = x"
    by (simp only: word16_of_bytes)
qed

lemma frame_decode_bytes:
  "frame_decode [r, ucast (drop_bit 8 x), ucast (x :: 16 word)] = Some (r, x)"
  using word16_of_bytes [of x] by (simp add: frame_decode_def push_bit_eq_mult)

lemma register_writes_wireWriteRegister:
  "register_writes (wireWriteRegister d r x w) = register_writes w @ [(ina219_i2caddr d, r, x)]"
  by (simp add: register_writes_def wireWriteRegister_sent map_filter_def frame_decode_bytes)

lemma register_writes_Wire_begin: "register_writes (Wire_begin w) = register_writes w"
  by (simp add: register_writes_def Wire_begin_def)

lemma enabled_Wire_begin: "enabled (Wire_begin w)"
  by (simp add: Wire_begin_def)

subsection \<open>Presets\<close>

text \<open>
  Claim C1. Each of the three calibration presets sets the two dividers to
  its documented pair, (10, 2) for 32V/2A, (25, 1) for 32V/1A and (20, 1) for
  16V/400mA, and issues exactly two register writes: its calibration constant
  (0x1000, 0x2800, 8192) to the calibration register, then the bitwise OR of
  its five configuration masks to the configuration register.
\<close>

theorem presets_write_documented_values:
  "fst (ina219SetCalibration_32V_2A h d w)
     = d\<lparr>ina219_currentDivider_mA := 10, ina219_powerDivider_mW := 2\<rparr>
   \<and> register_writes (snd (ina219SetCalibration_32V_2A h d w))
     = register_writes w @
       [(ina219_i2caddr d, INA219_REG_CALIBRATION h, 0x1000),
        (ina219_i2caddr d, INA219_REG_CONFIG h,
           INA219_CONFIG_BVOLTAGERANGE_32V h OR INA219_CONFIG_GAIN_8_320MV h OR
           INA219_CONFIG_BADCRES_12BIT h OR INA219_CONFIG_SADCRES_12BIT_1S_532US h OR
           INA219_CONFIG_MODE_SANDBVOLT_CONTINUOUS h)]
   \<and> fst (ina219SetCalibration_32V_1A h d w)
     = d\<lparr>ina219_currentDivider_mA := 25, ina219_powerDivider_mW := 1\<rparr>
   \<and> register_writes (snd (ina219SetCalibration_32V_1A h d w))
     = register_writes w @
       [(ina219_i2caddr d, INA219_REG_CALIBRATION h, 0x2800),
        (ina219_i2caddr d, INA219_REG_CONFIG h,
           INA219_CONFIG_BVOLTAGERANGE_32V h OR INA219_CONFIG_GAIN_8_320MV h OR
           INA219_CONFIG_BADCRES_12BIT h OR INA219_CONFIG_SADCRES_12BIT_1S_532US h OR
           INA219_CONFIG_MODE_SANDBVOLT_CONTINUOUS h)]
   \<and> fst (ina219SetCalibration_16V_400mA h d w)
     = d\<lparr>ina219_currentDivider_mA := 20, ina219_powerDivider_mW := 1\<rparr>
   \<and> register_writes (snd (ina219SetCalibration_16V_400mA h d w))
     = register_writes w @
       [(ina219_i2caddr d, INA219_REG_CALIBRATION h, 8192),
        (ina219_i2caddr d, INA219_REG_CONFIG h,
           INA219_CONFIG_BVOLTAGERANGE_16V h OR INA219_CONFIG_GAIN_1_40MV h OR
           INA219_CONFIG_BADCRES_12BIT h OR INA219_CONFIG_SADCRES_12BIT_1S_532US h OR
           INA219_CONFIG_MODE_SANDBVOLT_CONTINUOUS h)]"
  by (simp add: ina219SetCalibration_32V_2A_def ina219SetCalibration_32V_1A_def
      ina219SetCalibration_16V_400mA_def register_writes_wireWriteRegister Let_def)

text \<open>
  Claim C8. \<^verbatim>\<open>begin()\<close> enables the bus and applies the 32V/2A preset:
  afterwards the current divider is 10, the power divider is 2, and the write
  of 0x1000 to the calibration register and of the 32V/2A configuration word
  to the configuration register have been issued.
\<close>

theorem begin_applies_32V_2A:
  "enabled (snd (INA219_begin h d w))
   \<and> ina219_currentDivider_mA (fst (INA219_begin h d w)) = 10
   \<and> ina219_powerDivider_mW (fst (INA219_begin h d w)) = 2
   \<and> register_writes (snd (INA219_begin h d w))
     = register_writes w @
       [(ina219_i2caddr d, INA219_REG_CALIBRATION h, 0x1000),
        (ina219_i2caddr d, INA219_REG_CONFIG h,
           INA219_CONFIG_BVOLTAGERANGE_32V h OR INA219_CONFIG_GAIN_8_320MV h OR
           INA219_CONFIG_BADCRES_12BIT h OR INA219_CONFIG_SADCRES_12BIT_1S_532US h OR
           INA219_CONFIG_MODE_SANDBVOLT_CONTINUOUS h)]"
  by (simp add: INA219_begin_def ina219SetCalibration_32V_2A_def Let_def
      register_writes_wireWriteRegister register_writes_Wire_begin
      wireWriteRegister_enabled enabled_Wire_begin)

subsection \<open>Integer accessors\<close>

lemma getBusVoltage_raw_mock:
  "fst (getBusVoltage_raw h d (mock_register (ina219_i2caddr d) (INA219_REG_BUSVOLTAGE h) v w))
     = drop_bit 3 v * 4"
  using wireReadRegister_mock [of d "INA219_REG_BUSVOLTAGE h" v w]
  by (simp add: getBusVoltage_raw_def case_prod_beta)

lemma getBusVoltage_V_mock:
  "fst (getBusVoltage_V h d (mock_register (ina219_i2caddr d) (INA219_REG_BUSVOLTAGE h) v w))
     = push_bit 2 (drop_bit 3 v)"
  using wireReadRegister_mock [of d "INA219_REG_BUSVOLTAGE h" v w]
  by (simp add: getBusVoltage_V_def case_prod_beta)

lemma getShuntVoltage_mV_mock:
  "fst (getShuntVoltage_mV h d (mock_register (ina219_i2caddr d) (INA219_REG_SHUNTVOLTAGE h) v w))
     = (if 650 \<le> v then 0 else v)"
  using wireReadRegister_mock [of d "INA219_REG_SHUNTVOLTAGE h" v w]
  by (simp add: getShuntVoltage_mV_def case_prod_beta Let_def)

lemma uint_drop_3: "uint (drop_bit 3 (v :: 16 word)) = uint v div 8"
proof -
  have "uint v mod 65536 = uint v"
    using uint_idem [of v] by simp
  then show ?thesis
    by (subst unsigned_drop_bit_eq) (simp add: drop_bit_eq_div take_bit_eq_mod)
qed

lemma sint_small: "uint (x :: 16 word) < 32768 \<Longrightarrow> sint x = uint x"
proof -
  assume "uint x < 32768"
  moreover have "- 32768 \<le> uint x"
    by (rule order_trans [OF _ uint_nonnegative]) simp
  ultimately have "signed_take_bit 15 (uint x) = uint x"
    by (intro signed_take_bit_int_eq_self) simp_all
  then show ?thesis
    by (simp add: sint_uint)
qed

lemma sint_bus_voltage: "sint (drop_bit 3 (v :: 16 word) * 4) = uint v div 8 * 4"
proof -
  have "uint v < 65536"
    using uint_bounded [of v] by simp
  then have small: "uint v div 8 * 4 < 32768"
    by simp
  have nonneg: "0 \<le> uint v div 8 * 4"
    using uint_nonnegative [of v] by (simp add: pos_imp_zdiv_nonneg_iff)
  have "uint (drop_bit 3 v * 4) = (uint v div 8 * 4) mod 65536"
    by (simp add: uint_word_ariths uint_drop_3)
  also have "\<dots> = uint v div 8 * 4"
    using small nonneg by simp
  finally have u: "uint (drop_bit 3 v * 4) = uint v div 8 * 4" .
  with small show ?thesis
    by (simp add: sint_small)
qed

text \<open>
  Claim C3. \<^verbatim>\<open>getBusVoltage_raw\<close> and \<^verbatim>\<open>getBusVoltage_V\<close> return the same
  result (and leave the same bus state) on every bus state; when the
  bus-voltage register holds the raw value \<open>v\<close>, both return
  \<open>(v >> 3) * 4\<close>, computed without wrap-around.
\<close>

theorem bus_voltage_accessors_agree:
  "getBusVoltage_raw h d w = getBusVoltage_V h d w
   \<and> sint (fst (getBusVoltage_raw h d
        (mock_register (ina219_i2caddr d) (INA219_REG_BUSVOLTAGE h) v w))) = uint v div 2 ^ 3 * 4
   \<and> sint (fst (getBusVoltage_V h d
        (mock_register (ina219_i2caddr d) (INA219_REG_BUSVOLTAGE h) v w))) = uint v div 2 ^ 3 * 4"
proof -
  have eq: "drop_bit 3 x * 4 = push_bit 2 (drop_bit 3 x)" for x :: "16 word"
    by (simp add: push_bit_eq_mult)
  have "getBusVoltage_raw h d w = getBusVoltage_V h d w"
    by (simp add: getBusVoltage_raw_def getBusVoltage_V_def eq case_prod_beta)
  moreover have "sint (fst (getBusVoltage_raw h d
        (mock_register (ina219_i2caddr d) (INA219_REG_BUSVOLTAGE h) v w))) = uint v div 2 ^ 3 * 4"
    by (simp only: getBusVoltage_raw_mock sint_bus_voltage) simp
  moreover have "sint (fst (getBusVoltage_V h d
        (mock_register (ina219_i2caddr d) (INA219_REG_BUSVOLTAGE h) v w))) = uint v div 2 ^ 3 * 4"
    by (simp only: getBusVoltage_V_mock eq [symmetric] sint_bus_voltage) simp
  ultimately show ?thesis
    by simp
qed


lemma INA219_begin_addr: "ina219_i2caddr (fst (INA219_begin h d w)) = ina219_i2caddr d"
  by (simp add: INA219_begin_def ina219SetCalibration_32V_2A_def Let_def)

text \<open>
  Claim C2, amended. A driver constructed with address 0x40 and initialised by
  \<^verbatim>\<open>begin()\<close>, on a bus whose bus-voltage register holds 0x1F28, returns
  \<open>(0x1F28 >> 3) * 4\<close> from \<^verbatim>\<open>getBusVoltage_raw\<close>, and that number is 3988.
\<close>

theorem bus_voltage_0x1F28:
  "sint (fst (getBusVoltage_raw h (fst (INA219_begin h (INA219 0x40) w0))
       (mock_register 0x40 (INA219_REG_BUSVOLTAGE h) 0x1F28 w)))
     = uint (0x1F28 :: 16 word) div 2 ^ 3 * 4
   \<and> sint (fst (getBusVoltage_raw h (fst (INA219_begin h (INA219 0x40) w0))
       (mock_register 0x40 (INA219_REG_BUSVOLTAGE h) 0x1F28 w))) = 3988"
proof -
  let ?d = "fst (INA219_begin h (INA219 0x40) w0)"
  have a: "ina219_i2caddr ?d = 0x40"
    by (simp add: INA219_begin_addr INA219_def)
  have "fst (getBusVoltage_raw h ?d
       (mock_register (ina219_i2caddr ?d) (INA219_REG_BUSVOLTAGE h) 0x1F28 w))
     = drop_bit 3 0x1F28 * 4"
    by (rule getBusVoltage_raw_mock)
  then have "sint (fst (getBusVoltage_raw h ?d
       (mock_register 0x40 (INA219_REG_BUSVOLTAGE h) 0x1F28 w))) = uint (0x1F28 :: 16 word) div 8 * 4"
    by (simp only: a sint_bus_voltage)
  then show ?thesis
    by simp
qed

text \<open>
  Claim C2 as stated gives 16160 for this scenario; on the data-sheet register
  map and a fresh bus the code does not return 16160.
\<close>

theorem bus_voltage_0x1F28_not_16160:
  "sint (fst (getBusVoltage_raw datasheet_h (fst (INA219_begin datasheet_h (INA219 0x40) idle_wire))
       (mock_register 0x40 (INA219_REG_BUSVOLTAGE datasheet_h) 0x1F28
          (snd (INA219_begin datasheet_h (INA219 0x40) idle_wire))))) \<noteq> 16160"
proof -
  let ?d = "fst (INA219_begin datasheet_h (INA219 0x40) idle_wire)"
  let ?w = "snd (INA219_begin datasheet_h (INA219 0x40) idle_wire)"
  have a: "ina219_i2caddr ?d = 0x40"
    by (simp add: INA219_begin_addr INA219_def)
  have "fst (getBusVoltage_raw datasheet_h ?d
       (mock_register (ina219_i2caddr ?d) (INA219_REG_BUSVOLTAGE datasheet_h) 0x1F28 ?w))
     = drop_bit 3 0x1F28 * 4"
    by (rule getBusVoltage_raw_mock)
  then have "sint (fst (getBusVoltage_raw datasheet_h ?d
       (mock_register 0x40 (INA219_REG_BUSVOLTAGE datasheet_h) 0x1F28 ?w)))
     = uint (0x1F28 :: 16 word) div 8 * 4"
    by (simp only: a sint_bus_voltage)
  then show ?thesis
    by simp
qed

lemma sint_shunt_clamped:
  "sint (if 650 \<le> v then 0 else v :: 16 word) = (if 650 \<le> uint v then 0 else uint v)"
proof (cases "650 \<le> v")
  case True
  then show ?thesis
    by (simp add: word_le_def)
next
  case False
  then have "uint v < 650"
    by (simp add: word_le_def)
  with False show ?thesis
    by (simp add: sint_small)
qed

text \<open>
  Claim C4. When the shunt-voltage register holds the raw value \<open>v\<close>,
  \<^verbatim>\<open>getShuntVoltage_mV\<close> returns 0 if \<open>v\<close>, read unsigned, is at least 650,
  and the signed reading of \<open>v\<close> otherwise.
\<close>

theorem shunt_voltage_mV_clamp:
  "sint (fst (getShuntVoltage_mV h d
       (mock_register (ina219_i2caddr d) (INA219_REG_SHUNTVOLTAGE h) v w)))
     = (if 650 \<le> uint v then 0 else sint v)"
proof -
  have "uint v < 650 \<Longrightarrow> sint v = uint v"
    by (simp add: sint_small)
  then show ?thesis
    by (simp only: getShuntVoltage_mV_mock sint_shunt_clamped) simp
qed

text \<open>
  Claim C10. Whatever the shunt-voltage register holds, the result of
  \<^verbatim>\<open>getShuntVoltage_mV\<close> lies between 0 and 649; a raw value with the sign
  bit set (unsigned value at least 0x8000) gives 0.
\<close>

theorem shunt_voltage_mV_range:
  "0 \<le> sint (fst (getShuntVoltage_mV h d
       (mock_register (ina219_i2caddr d) (INA219_REG_SHUNTVOLTAGE h) v w)))
   \<and> sint (fst (getShuntVoltage_mV h d
       (mock_register (ina219_i2caddr d) (INA219_REG_SHUNTVOLTAGE h) v w))) \<le> 649
   \<and> (0x8000 \<le> uint v \<longrightarrow>
        fst (getShuntVoltage_mV h d
          (mock_register (ina219_i2caddr d) (INA219_REG_SHUNTVOLTAGE h) v w)) = 0)"
proof -
  have "0 \<le> uint v"
    by (rule uint_nonnegative)
  then have "0 \<le> (if 650 \<le> uint v then 0 else uint v)"
    and "(if 650 \<le> uint v then 0 else uint v) \<le> 649"
    by simp_all
  moreover have "0x8000 \<le> uint v \<longrightarrow> (if 650 \<le> v then 0 else v) = 0"
    by (simp add: word_le_def)
  ultimately show ?thesis
    by (simp only: getShuntVoltage_mV_mock sint_shunt_clamped)
qed

theorem shunt_voltage_mV_range_witness:
  "0x8000 \<le> uint (0x8000 :: 16 word)
   \<and> fst (getShuntVoltage_mV datasheet_h (INA219 0x40)
          (mock_register (ina219_i2caddr (INA219 0x40)) (INA219_REG_SHUNTVOLTAGE datasheet_h)
             0x8000 idle_wire)) = 0"
  using shunt_voltage_mV_range [of datasheet_h "INA219 0x40" "0x8000" idle_wire]
  by simp

subsection \<open>Rounding into a floating-point format\<close>

lemma pow2_pos: "0 < (2 :: rat) powi e"
  by (simp add: zero_less_power_int)

lemma pow2_mono: "a \<le> b \<Longrightarrow> (2 :: rat) powi a \<le> 2 powi b"
  by (rule power_int_increasing) simp_all

lemma pow2_less_imp: "(2 :: rat) powi a < 2 powi b \<Longrightarrow> a < b"
proof (rule ccontr)
  assume "2 powi a < (2 :: rat) powi b" and "\<not> a < b"
  then have "(2 :: rat) powi b \<le> 2 powi a"
    by (intro pow2_mono) simp
  with \<open>2 powi a < (2 :: rat) powi b\<close> show False
    by simp
qed

lemma pow2_half: "(2 :: rat) powi (e - 1) = 2 powi e / 2"
  by (simp add: power_int_diff)

lemma pow2_double: "(2 :: rat) powi (e + 1) = 2 powi e * 2"
  by (simp add: power_int_add)

lemma bitlen_rat_bounds:
  assumes "0 < p"
  shows "(2 :: rat) powi (bitlen p - 1) \<le> of_int p" and "of_int p < (2 :: rat) powi bitlen p"
proof -
  have b: "1 \<le> bitlen p"
    using assms bitlen_eq_zero_iff [of p] bitlen_nonneg [of p] by linarith
  from bitlen_bounds [OF assms]
  have lo: "2 ^ nat (bitlen p - 1) \<le> p" and hi: "p < 2 ^ nat (bitlen p)"
    by simp_all
  have "(2 :: rat) powi (bitlen p - 1) = of_int (2 ^ nat (bitlen p - 1))"
    using b by (simp add: power_int_nonneg_exp)
  also have "\<dots> \<le> of_int p"
    using lo by (simp only: of_int_le_iff)
  finally show "(2 :: rat) powi (bitlen p - 1) \<le> of_int p" .
  have "(of_int p :: rat) < of_int (2 ^ nat (bitlen p))"
    using hi by (simp only: of_int_less_iff)
  also have "\<dots> = 2 powi bitlen p"
    using b by (simp add: power_int_nonneg_exp)
  finally show "of_int p < (2 :: rat) powi bitlen p" .
qed

lemma ilog2_bounds:
  assumes "0 < x"
  shows "2 powi ilog2 x \<le> x" and "x < 2 powi (ilog2 x + 1)"
proof -
  obtain p q where pq: "quotient_of x = (p, q)"
    by (cases "quotient_of x")
  then have q: "0 < q" and x: "x = of_int p / of_int q"
    by (rule quotient_of_denom_pos, rule quotient_of_div)
  with assms have p: "0 < p"
    by (simp add: zero_less_divide_iff)
  define k where "k = bitlen p - bitlen q"
  have il: "ilog2 x = (if 2 powi k \<le> x then k else k - 1)"
    by (simp add: ilog2_def pq k_def Let_def)
  note p_lo = bitlen_rat_bounds(1) [OF p] and p_hi = bitlen_rat_bounds(2) [OF p]
  note q_lo = bitlen_rat_bounds(1) [OF q] and q_hi = bitlen_rat_bounds(2) [OF q]
  have lower: "2 powi (k - 1) \<le> x"
  proof -
    have "2 powi (k - 1) * of_int q \<le> (2 :: rat) powi (k - 1) * 2 powi bitlen q"
      using q_hi by (intro mult_left_mono) (simp_all add: less_imp_le)
    also have "\<dots> = 2 powi (bitlen p - 1)"
      by (simp add: k_def flip: power_int_add)
    also have "\<dots> \<le> of_int p"
      by (rule p_lo)
    finally show ?thesis
      using q by (simp add: x pos_le_divide_eq)
  qed
  have upper: "x < 2 powi (k + 1)"
  proof -
    have "of_int p < (2 :: rat) powi bitlen p"
      by (rule p_hi)
    also have "\<dots> = 2 powi (k + 1) * 2 powi (bitlen q - 1)"
      by (simp add: k_def flip: power_int_add)
    also have "\<dots> \<le> 2 powi (k + 1) * of_int q"
      using q_lo by (intro mult_left_mono) (simp_all add: less_imp_le)
    finally show ?thesis
      using q by (simp add: x pos_divide_less_eq)
  qed
  show "2 powi ilog2 x \<le> x"
    using lower by (simp add: il)
  show "x < 2 powi (ilog2 x + 1)"
    using upper by (simp add: il not_le)
qed

lemma round_half_even_error: "\<bar>of_int (round_half_even y) - y\<bar> \<le> 1 / 2"
proof -
  have "of_int \<lfloor>y\<rfloor> \<le> y" and "y < of_int \<lfloor>y\<rfloor> + 1"
    by linarith+
  then show ?thesis
    by (auto simp add: round_half_even_def Let_def abs_le_iff)
qed

lemma round_half_even_of_int: "round_half_even (of_int n) = n"
  by (simp add: round_half_even_def)

lemma quantum_pos: "0 < quantum f x"
  by (simp add: quantum_def pow2_pos)

lemma quantum_exponent:
  assumes "x \<noteq> 0" and "\<bar>x\<bar> < 2 powi E" and "emin f < E"
  shows "\<exists>t. quantum f x = 2 powi t \<and> t \<le> E - int (precision f)"
proof -
  from assms(1) have "0 < \<bar>x\<bar>"
    by simp
  then have "2 powi ilog2 \<bar>x\<bar> \<le> \<bar>x\<bar>"
    by (rule ilog2_bounds)
  with assms(2) have "(2 :: rat) powi ilog2 \<bar>x\<bar> < 2 powi E"
    by simp
  then have "ilog2 \<bar>x\<bar> < E"
    by (rule pow2_less_imp)
  with assms(3) have "max (ilog2 \<bar>x\<bar>) (emin f) - int (precision f) + 1 \<le> E - int (precision f)"
    by simp
  then show ?thesis
    unfolding quantum_def by blast
qed


lemma fp_round_zero: "fp_round f 0 = Inr 0"
  by (simp add: fp_round_def round_half_even_def Let_def not_le pow2_pos)

lemma fp_round_error:
  assumes "\<bar>x\<bar> < 2 powi E" and "emin f < E" and "E \<le> emax f"
  shows "\<exists>r. fp_round f x = Inr r \<and> \<bar>r - x\<bar> \<le> 2 powi (E - int (precision f) - 1)"
proof (cases "x = 0")
  case True
  then show ?thesis
    by (simp add: fp_round_zero less_imp_le pow2_pos)
next
  case False
  from quantum_exponent [OF False assms(1,2)]
  obtain t where q: "quantum f x = 2 powi t" and t: "t \<le> E - int (precision f)"
    by blast
  define r where "r = of_int (round_half_even (x / 2 powi t)) * (2 :: rat) powi t"
  have "r - x = (of_int (round_half_even (x / 2 powi t)) - x / 2 powi t) * 2 powi t"
    by (simp add: r_def left_diff_distrib)
  then have "\<bar>r - x\<bar> = \<bar>of_int (round_half_even (x / 2 powi t)) - x / 2 powi t\<bar> * 2 powi t"
    by (simp add: abs_mult)
  also have "\<dots> \<le> 1 / 2 * 2 powi t"
    by (intro mult_right_mono round_half_even_error) (simp add: less_imp_le pow2_pos)
  also have "\<dots> = 2 powi (t - 1)"
    by (simp add: pow2_half)
  also have "\<dots> \<le> 2 powi (E - int (precision f) - 1)"
    using t by (intro pow2_mono) simp
  finally have err: "\<bar>r - x\<bar> \<le> 2 powi (E - int (precision f) - 1)" .
  have "(2 :: rat) powi (E - int (precision f) - 1) \<le> 2 powi E"
    by (intro pow2_mono) simp
  with err assms(1) have "\<bar>r\<bar> < 2 powi E + 2 powi E"
    by linarith
  also have "\<dots> = 2 powi (E + 1)"
    by (simp add: pow2_double)
  also have "\<dots> \<le> 2 powi (emax f + 1)"
    using assms(3) by (intro pow2_mono) simp
  finally have "\<not> 2 powi (emax f + 1) \<le> \<bar>r\<bar>"
    by simp
  then have "fp_round f x = Inr r"
    by (simp add: fp_round_def q r_def Let_def)
  with err show ?thesis
    by blast
qed

lemma fp_round_exact:
  assumes "x * 2 ^ k = of_int m"
    and "\<bar>x\<bar> < 2 powi E" and "emin f < E" and "E \<le> emax f"
    and "int k + E \<le> int (precision f)"
  shows "fp_round f x = Inr x"
proof (cases "x = 0")
  case True
  then show ?thesis
    by (simp add: fp_round_zero)
next
  case False
  from quantum_exponent [OF False assms(2,3)]
  obtain t where q: "quantum f x = 2 powi t" and t: "t \<le> E - int (precision f)"
    by blast
  from t assms(5) have nonneg: "0 \<le> - t - int k"
    by simp
  have "(2 :: rat) powi (- t) = 2 powi (int k + (- t - int k))"
    by simp
  also have "\<dots> = 2 ^ k * 2 powi (- t - int k)"
    by (subst power_int_add) simp_all
  also have "\<dots> = 2 ^ k * 2 ^ nat (- t - int k)"
    using nonneg by (simp add: power_int_nonneg_exp)
  finally have "x / 2 powi t = x * 2 ^ k * 2 ^ nat (- t - int k)"
    by (simp add: power_int_minus divide_inverse)
  also have "\<dots> = of_int (m * 2 ^ nat (- t - int k))"
    by (simp add: assms(1))
  finally have "x / 2 powi t = of_int (m * 2 ^ nat (- t - int k))" .
  then have "of_int (round_half_even (x / 2 powi t)) = x / 2 powi t"
    by (simp only: round_half_even_of_int)
  then have r: "of_int (round_half_even (x / 2 powi t)) * 2 powi t = x"
    by simp
  have "\<bar>x\<bar> < 2 powi (emax f + 1)"
    using assms(2) pow2_mono [of E "emax f + 1"] assms(4) by simp
  then show ?thesis
    by (simp add: fp_round_def q r Let_def not_le)
qed


subsection \<open>The conversion in \<^verbatim>\<open>getCurrent_mA\<close>\<close>

lemma binary32_simps:
  "precision binary32 = 24" "emin binary32 = - 126" "emax binary32 = 127"
  by (simp_all add: binary32_def)

lemma trunc_toward_zero_bounds:
  assumes "- of_int B \<le> y" and "y \<le> of_int B"
  shows "- B \<le> trunc_toward_zero y" and "trunc_toward_zero y \<le> B"
proof -
  have "0 \<le> y \<Longrightarrow> \<lfloor>y\<rfloor> \<le> B"
    using assms(2) by (simp add: floor_le_iff)
  moreover have "0 \<le> y \<Longrightarrow> - B \<le> \<lfloor>y\<rfloor>"
    using assms(1) by (simp add: le_floor_iff)
  moreover have "\<not> 0 \<le> y \<Longrightarrow> \<lceil>y\<rceil> \<le> B"
    using assms(2) by (simp add: ceiling_le_iff)
  moreover have "\<not> 0 \<le> y \<Longrightarrow> - B \<le> \<lceil>y\<rceil>"
    using assms(1) by (simp add: le_ceiling_iff)
  ultimately show "- B \<le> trunc_toward_zero y" and "trunc_toward_zero y \<le> B"
    by (auto simp add: trunc_toward_zero_def)
qed

lemma cast_int16_small:
  assumes "\<bar>y\<bar> \<le> 4096"
  shows "cast_int16 y = Inr (word_of_int (trunc_toward_zero y))"
proof -
  from assms have "- of_int 4096 \<le> y" and "y \<le> of_int 4096"
    by (simp_all add: abs_le_iff)
  from trunc_toward_zero_bounds [OF this]
  show ?thesis
    by (simp add: cast_int16_def Let_def)
qed

text \<open>
  A value strictly between two neighbouring integers truncates like any other
  value between them on the same side of zero.
\<close>

lemma trunc_between:
  assumes "of_int k < y" and "y < of_int k + 1"
    and "of_int k < z" and "z < of_int k + 1"
  shows "trunc_toward_zero y = trunc_toward_zero z"
proof -
  have fl: "\<lfloor>y\<rfloor> = k" "\<lfloor>z\<rfloor> = k"
    using assms by (simp_all add: floor_unique less_imp_le)
  have ce: "\<lceil>y\<rceil> = k + 1" "\<lceil>z\<rceil> = k + 1"
    using assms by (simp_all add: ceiling_unique less_imp_le)
  show ?thesis
  proof (cases "0 \<le> k")
    case True
    then have "0 \<le> y" and "0 \<le> z"
      using assms(1,3) by (simp_all add: less_imp_le order_trans [of 0 "of_int k"])
    then show ?thesis
      by (simp add: trunc_toward_zero_def fl)
  next
    case False
    then have "k + 1 \<le> 0"
      by simp
    then have "(of_int (k + 1) :: rat) \<le> of_int 0"
      by (simp only: of_int_le_iff)
    then have "of_int k + 1 \<le> (0 :: rat)"
      by simp
    with assms(2,4) have "\<not> 0 \<le> y" and "\<not> 0 \<le> z"
      by simp_all
    then show ?thesis
      by (simp add: trunc_toward_zero_def ce)
  qed
qed


lemma float_of_int16:
  assumes "- 32768 \<le> v" and "v \<le> 32767"
  shows "fp_round binary32 (of_int v) = Inr (of_int v)"
proof -
  have "\<bar>of_int v :: rat\<bar> \<le> 32768"
    using assms by simp
  then show ?thesis
    by (intro fp_round_exact [where k = 0 and m = v and E = 16])
      (simp_all add: binary32_simps)
qed

lemma quotient_range:
  fixes v :: int and n :: nat
  assumes "- 32768 \<le> v" "v \<le> 32767" and "n = 10 \<or> n = 20 \<or> n = 25"
  shows "- 3277 \<le> (of_int v / of_nat n :: rat)" and "(of_int v / of_nat n :: rat) \<le> 3277"
proof -
  have n10: "10 \<le> n"
    using assms(3) by auto
  have vabs: "\<bar>of_int v :: rat\<bar> \<le> 32768"
    using assms(1,2) by simp
  have "\<bar>of_int v / of_nat n :: rat\<bar> = \<bar>of_int v\<bar> / of_nat n"
    by simp
  also have "\<dots> \<le> 32768 / 10"
    using vabs n10 by (intro frac_le) simp_all
  also have "\<dots> \<le> (3277 :: rat)"
    by simp
  finally have "\<bar>of_int v / of_nat n :: rat\<bar> \<le> 3277" .
  then show "- 3277 \<le> (of_int v / of_nat n :: rat)" and "(of_int v / of_nat n :: rat) \<le> 3277"
    by linarith+
qed

text \<open>
  Every step of the conversion, for a raw reading \<open>v\<close> and a divider \<open>n\<close> of
  a preset. Write \<open>z = v / n + 1 / 2 = (2 v + n) / (2 n)\<close>. If \<open>z\<close> is an
  integer, \<open>v / n\<close> is a multiple of one half below 4096, so the division and
  the addition are exact. Otherwise \<open>z\<close> is at least \<open>1 / 50\<close> away from every
  integer, and the three roundings move the result by at most \<open>3 / 8192\<close>.
\<close>

lemma current_chain:
  fixes v :: int and n :: nat
  assumes v: "- 32768 \<le> v" "v \<le> 32767"
    and n: "n = 10 \<or> n = 20 \<or> n = 25"
    and dbl: "24 \<le> precision dbl" "emin dbl < 12" "12 \<le> emax dbl"
  shows "\<exists>x1 x2 y.
     fp_round binary32 (of_int v) = Inr (of_int v)
   \<and> fp_round binary32 (of_nat n) = Inr (of_nat n)
   \<and> fp_divide binary32 (of_int v) (of_nat n) = Inr x1
   \<and> fp_round dbl x1 = Inr x2
   \<and> fp_round dbl (x2 + 1 / 2) = Inr y
   \<and> cast_int16 y = Inr (word_of_int (trunc_toward_zero (of_int v / of_nat n + 1 / 2)))"
proof -
  define q :: rat where "q = of_int v / of_nat n"
  define z :: rat where "z = q + 1 / 2"
  define D :: int where "D = 2 * int n"
  define N :: int where "N = 2 * v + int n"
  have n10: "10 \<le> n" and n25: "n \<le> 25"
    using n by auto
  have a: "fp_round binary32 (of_int v) = Inr (of_int v)"
    using v by (rule float_of_int16)
  have b: "fp_round binary32 (of_nat n) = Inr (of_nat n)"
    using n25 by (intro fp_round_exact [where k = 0 and m = "int n" and E = 5])
      (simp_all add: binary32_simps)
  have qabs: "- 3277 \<le> q" "q \<le> 3277"
    unfolding q_def by (rule quotient_range [OF v n])+
  have c: "fp_divide binary32 (of_int v) (of_nat n) = fp_round binary32 q"
    using n10 by (simp add: fp_divide_def q_def)
  have zabs: "\<bar>z\<bar> \<le> 4000"
    using qabs by (simp add: z_def abs_le_iff)
  have Dpos: "0 < D" and D50: "D \<le> 50"
    using n10 n25 by (simp_all add: D_def)
  have zND: "z = of_int N / of_int D"
    using n10 by (simp add: z_def q_def N_def D_def field_simps)
  have goal_z: "of_int v / of_nat n + 1 / 2 = z"
    by (simp add: z_def q_def)
  show ?thesis
  proof (cases "N mod D = 0")
    case True
    define m where "m = N div D"
    from True have "N = m * D"
      using div_mult_mod_eq [of N D] by (simp add: m_def)
    with Dpos have zm: "z = of_int m"
      by (simp add: zND)
    then have q2: "q * 2 ^ 1 = of_int (2 * m - 1)"
      by (simp add: z_def field_simps)
    have x1: "fp_round binary32 q = Inr q"
      using qabs by (intro fp_round_exact [OF q2, where E = 12]) (simp_all add: binary32_simps)
    have x2: "fp_round dbl q = Inr q"
      using qabs dbl by (intro fp_round_exact [OF q2, where E = 12]) simp_all
    have "z * 2 ^ 0 = of_int m"
      by (simp add: zm)
    then have y: "fp_round dbl z = Inr z"
      using zabs dbl by (intro fp_round_exact [where k = 0 and m = m and E = 12]) simp_all
    have "cast_int16 z = Inr (word_of_int (trunc_toward_zero z))"
      using zabs by (intro cast_int16_small) simp
    with a b c x1 x2 y show ?thesis
      by (simp add: goal_z z_def [symmetric])
  next
    case False
    define k where "k = N div D"
    define r where "r = N mod D"
    have "0 \<le> r" and "r < D"
      unfolding r_def using Dpos by (rule pos_mod_sign, rule pos_mod_bound)
    with False have r1: "1 \<le> r" and rD: "r \<le> D - 1"
      unfolding r_def by linarith+
    have "N = k * D + r"
      by (simp add: k_def r_def)
    then have zk: "z = of_int k + of_int r / of_int D"
      using Dpos by (simp add: zND field_simps)
    have "(1 :: rat) / 50 \<le> of_int r / of_int D"
      using r1 Dpos D50 by (intro frac_le) simp_all
    then have z_lo: "of_int k + 1 / 50 \<le> z"
      by (simp add: zk)
    have "(of_int r :: rat) / of_int D \<le> (of_int D - 1) / of_int D"
      using rD Dpos by (intro divide_right_mono) simp_all
    also have "\<dots> = 1 - 1 / of_int D"
      using Dpos by (simp add: field_simps)
    also have "\<dots> \<le> 1 - 1 / 50"
      using Dpos D50 by (simp add: frac_le)
    finally have z_hi: "z \<le> of_int k + 1 - 1 / 50"
      by (simp add: zk)
    have e32: "(2 :: rat) powi (12 - int (precision binary32) - 1) = 1 / 8192"
      by (simp add: binary32_simps)
    have m32: "emin binary32 < 12" "12 \<le> emax binary32"
      by (simp_all add: binary32_simps)
    have edbl: "(2 :: rat) powi (12 - int (precision dbl) - 1) \<le> 1 / 8192"
    proof -
      have "(2 :: rat) powi (12 - int (precision dbl) - 1) \<le> 2 powi (- 13)"
        using dbl(1) by (intro pow2_mono) simp
      then show ?thesis
        by simp
    qed
    have p12: "(2 :: rat) powi 12 = 4096"
      by simp
    have "\<bar>q\<bar> < 2 powi 12"
      unfolding p12 using qabs by linarith
    from fp_round_error [OF this m32]
    obtain x1 where x1: "fp_round binary32 q = Inr x1" and e1: "\<bar>x1 - q\<bar> \<le> 1 / 8192"
      unfolding e32 by blast
    have "\<bar>x1\<bar> < 2 powi 12"
      unfolding p12 using qabs e1 by linarith
    from fp_round_error [OF this dbl(2,3)] edbl
    obtain x2 where x2: "fp_round dbl x1 = Inr x2" and e2: "\<bar>x2 - x1\<bar> \<le> 1 / 8192"
      by (meson order_trans)
    have "\<bar>x2 + 1 / 2\<bar> < 2 powi 12"
      unfolding p12 using qabs e1 e2 by linarith
    from fp_round_error [OF this dbl(2,3)] edbl
    obtain y where y: "fp_round dbl (x2 + 1 / 2) = Inr y" and e3: "\<bar>y - (x2 + 1 / 2)\<bar> \<le> 1 / 8192"
      by (meson order_trans)
    have yz: "\<bar>y - z\<bar> \<le> 3 / 8192"
      unfolding z_def using e1 e2 e3 by linarith
    have "of_int k < y" and "y < of_int k + 1"
      using yz z_lo z_hi by linarith+
    moreover have "of_int k < z" and "z < of_int k + 1"
      using z_lo z_hi by linarith+
    ultimately have "trunc_toward_zero y = trunc_toward_zero z"
      by (rule trunc_between)
    moreover have "cast_int16 y = Inr (word_of_int (trunc_toward_zero y))"
      using yz zabs by (intro cast_int16_small) linarith
    ultimately show ?thesis
      using a b c x1 x2 y by (simp add: goal_z)
  qed
qed


lemma sint16_range: "- 32768 \<le> sint (x :: 16 word)" "sint (x :: 16 word) \<le> 32767"
  using sint_ge [of x] sint_lt [of x] by simp_all

lemma sint_word_of_int16:
  assumes "- 32768 \<le> k" and "k \<le> 32767"
  shows "sint (word_of_int k :: 16 word) = k"
proof -
  have "signed_take_bit 15 k = k"
    using assms by (intro signed_take_bit_int_eq_self) simp_all
  then show ?thesis
    by (simp add: signed_of_int)
qed

lemma current_value_range:
  fixes v :: int and n :: nat
  assumes "- 32768 \<le> v" "v \<le> 32767" and "n = 10 \<or> n = 20 \<or> n = 25"
  shows "- 32768 \<le> trunc_toward_zero (of_int v / of_nat n + 1 / 2)"
    and "trunc_toward_zero (of_int v / of_nat n + 1 / 2) \<le> 32767"
proof -
  from quotient_range [OF assms]
  have "- of_int 4096 \<le> (of_int v / of_nat n + 1 / 2 :: rat)"
    and "(of_int v / of_nat n + 1 / 2 :: rat) \<le> of_int 4096"
    by simp_all
  from trunc_toward_zero_bounds [OF this]
  show "- 32768 \<le> trunc_toward_zero (of_int v / of_nat n + 1 / 2)"
    and "trunc_toward_zero (of_int v / of_nat n + 1 / 2) \<le> 32767"
    by simp_all
qed

lemma double_formats:
  assumes "dbl = binary32 \<or> dbl = binary64"
  shows "24 \<le> precision dbl" and "emin dbl < 12" and "12 \<le> emax dbl"
  using assms by (auto simp add: binary32_def binary64_def)

lemma getCurrent_mA_calibrated:
  assumes "ina219_currentDivider_mA d = 10 \<or> ina219_currentDivider_mA d = 20
      \<or> ina219_currentDivider_mA d = 25"
    and "dbl = binary32 \<or> dbl = binary64"
  shows "getCurrent_mA h dbl d w =
     Inr (word_of_int (trunc_toward_zero
            (of_int (sint (fst (wireReadRegister d (INA219_REG_CURRENT h) w)))
               / of_nat (ina219_currentDivider_mA d) + 1 / 2)),
          snd (wireReadRegister d (INA219_REG_CURRENT h) w))"
proof -
  let ?val = "fst (wireReadRegister d (INA219_REG_CURRENT h) w)"
  from current_chain [OF sint16_range [of ?val] assms(1) double_formats [OF assms(2)]]
  show ?thesis
    by (auto simp add: getCurrent_mA_def case_prod_beta simp del: of_int_sint)
qed

lemma getCurrent_mA_uncalibrated:
  assumes "ina219_currentDivider_mA d = 0"
  shows "getCurrent_mA h dbl d w = Inl DivideByZero"
proof -
  let ?val = "fst (wireReadRegister d (INA219_REG_CURRENT h) w)"
  from float_of_int16 [OF sint16_range [of ?val]]
  show ?thesis
    by (simp add: getCurrent_mA_def case_prod_beta assms fp_round_zero fp_divide_def
        del: of_int_sint)
qed

lemma trunc_examples:
  "trunc_toward_zero (of_int (sint (100 :: 16 word)) / of_nat 10 + 1 / 2) = 10"
  "trunc_toward_zero (of_int (sint (- 100 :: 16 word)) / of_nat 10 + 1 / 2) = - 9"
  by (simp_all add: trunc_toward_zero_def floor_unique ceiling_unique)


text \<open>
  Claim C5. With the current divider \<open>d\<close> at 10 or 25 and the current
  register holding a raw value whose signed reading is \<open>v\<close>,
  \<^verbatim>\<open>getCurrent_mA\<close> returns \<open>v / d + 0.5\<close> truncated toward zero: the
  floating-point roundings of the division and of the addition never change
  the truncated result, whether \<^verbatim>\<open>double\<close> is binary32 or binary64. With
  \<open>d = 10\<close>, raw bits 100 give 10 and raw bits of signed \<open>-100\<close> give \<open>-9\<close>.
\<close>

theorem current_mA_rounding:
  assumes "ina219_currentDivider_mA d = 10 \<or> ina219_currentDivider_mA d = 25"
    and "dbl = binary32 \<or> dbl = binary64"
  shows "(\<exists>r w'. getCurrent_mA h dbl d
             (mock_register (ina219_i2caddr d) (INA219_REG_CURRENT h) v w) = Inr (r, w')
           \<and> sint r = trunc_toward_zero
                (of_int (sint v) / of_nat (ina219_currentDivider_mA d) + 1 / 2))
   \<and> (ina219_currentDivider_mA d = 10 \<longrightarrow>
        (\<exists>w'. getCurrent_mA h dbl d
             (mock_register (ina219_i2caddr d) (INA219_REG_CURRENT h) 100 w) = Inr (10, w'))
      \<and> (\<exists>w'. getCurrent_mA h dbl d
             (mock_register (ina219_i2caddr d) (INA219_REG_CURRENT h) (- 100) w) = Inr (- 9, w')))"
proof -
  have n: "ina219_currentDivider_mA d = 10 \<or> ina219_currentDivider_mA d = 20
      \<or> ina219_currentDivider_mA d = 25"
    using assms(1) by auto
  have run: "getCurrent_mA h dbl d (mock_register (ina219_i2caddr d) (INA219_REG_CURRENT h) x w) =
     Inr (word_of_int (trunc_toward_zero
            (of_int (sint x) / of_nat (ina219_currentDivider_mA d) + 1 / 2)),
          snd (wireReadRegister d (INA219_REG_CURRENT h)
            (mock_register (ina219_i2caddr d) (INA219_REG_CURRENT h) x w)))" for x
    by (simp only: getCurrent_mA_calibrated [OF n assms(2)] wireReadRegister_mock)
  have "sint (word_of_int (trunc_toward_zero
            (of_int (sint v) / of_nat (ina219_currentDivider_mA d) + 1 / 2)) :: 16 word)
      = trunc_toward_zero (of_int (sint v) / of_nat (ina219_currentDivider_mA d) + 1 / 2)"
    by (rule sint_word_of_int16) (rule current_value_range [OF sint16_range n])+
  with run [of v] have general: "\<exists>r w'. getCurrent_mA h dbl d
             (mock_register (ina219_i2caddr d) (INA219_REG_CURRENT h) v w) = Inr (r, w')
           \<and> sint r = trunc_toward_zero
                (of_int (sint v) / of_nat (ina219_currentDivider_mA d) + 1 / 2)"
    by blast
  have examples: "(\<exists>w'. getCurrent_mA h dbl d
             (mock_register (ina219_i2caddr d) (INA219_REG_CURRENT h) 100 w) = Inr (10, w'))
      \<and> (\<exists>w'. getCurrent_mA h dbl d
             (mock_register (ina219_i2caddr d) (INA219_REG_CURRENT h) (- 100) w) = Inr (- 9, w'))"
    if "ina219_currentDivider_mA d = 10"
    using run [of 100] run [of "- 100"] by (simp only: that trunc_examples) simp
  from general examples show ?thesis
    by blast
qed

theorem current_mA_rounding_witness:
  "(ina219_currentDivider_mA (fst (INA219_begin datasheet_h (INA219 0x40) idle_wire)) = 10
      \<or> ina219_currentDivider_mA (fst (INA219_begin datasheet_h (INA219 0x40) idle_wire)) = 25)
   \<and> (binary32 = binary32 \<or> binary32 = binary64)
   \<and> (\<exists>w'. getCurrent_mA datasheet_h binary32
          (fst (INA219_begin datasheet_h (INA219 0x40) idle_wire))
          (mock_register 0x40 (INA219_REG_CURRENT datasheet_h) (- 100)
             (snd (INA219_begin datasheet_h (INA219 0x40) idle_wire))) = Inr (- 9, w'))"
proof -
  let ?d = "fst (INA219_begin datasheet_h (INA219 0x40) idle_wire)"
  let ?w = "snd (INA219_begin datasheet_h (INA219 0x40) idle_wire)"
  have d: "ina219_currentDivider_mA ?d = 10" and a: "ina219_i2caddr ?d = 0x40"
    by (simp_all add: INA219_begin_def ina219SetCalibration_32V_2A_def INA219_def Let_def)
  from d have h: "ina219_currentDivider_mA ?d = 10 \<or> ina219_currentDivider_mA ?d = 25"
    by simp
  from current_mA_rounding [OF h, of binary32 datasheet_h _ ?w] d a
  show ?thesis
    by simp
qed

subsection \<open>Sequences of calls\<close>

lemma exec_without_preset:
  assumes "\<not> applies_preset c" and "exec h dbl c (d, w) = Inr (d', w')"
  shows "d' = d"
  using assms by (cases c) (auto split: sum.splits)

lemma run_without_preset:
  assumes "\<forall>c \<in> set cs. \<not> applies_preset c" and "run h dbl cs (d, w) = Inr (d', w')"
  shows "d' = d"
  using assms
proof (induction cs arbitrary: d w)
  case Nil
  then show ?case
    by simp
next
  case (Cons c cs)
  from Cons.prems(2) obtain d1 w1
    where step: "exec h dbl c (d, w) = Inr (d1, w1)" and rest: "run h dbl cs (d1, w1) = Inr (d', w')"
    by (auto split: sum.splits)
  from Cons.prems(1) step have "d1 = d"
    by (auto dest: exec_without_preset)
  moreover from Cons.prems(1) rest have "d' = d1"
    by (auto dest: Cons.IH)
  ultimately show ?case
    by simp
qed

lemma exec_preset:
  assumes "applies_preset c"
  shows "\<exists>d' w'. exec h dbl c (d, w) = Inr (d', w') \<and> calibrated d'"
  using assms
  by (cases c)
    (auto simp add: calibrated_def INA219_begin_def ina219SetCalibration_32V_2A_def
      ina219SetCalibration_32V_1A_def ina219SetCalibration_16V_400mA_def Let_def)

lemma exec_calibrated:
  assumes "calibrated d" and "exec h dbl c (d, w) = Inr (d', w')"
  shows "calibrated d'"
proof (cases "applies_preset c")
  case True
  from exec_preset [OF this, of h dbl d w] assms(2) show ?thesis
    by auto
next
  case False
  from exec_without_preset [OF this assms(2)] assms(1) show ?thesis
    by simp
qed

lemma run_calibrated:
  assumes "calibrated d" and "run h dbl cs (d, w) = Inr (d', w')"
  shows "calibrated d'"
  using assms
proof (induction cs arbitrary: d w)
  case Nil
  then show ?case
    by simp
next
  case (Cons c cs)
  from Cons.prems(2) obtain d1 w1
    where step: "exec h dbl c (d, w) = Inr (d1, w1)" and rest: "run h dbl cs (d1, w1) = Inr (d', w')"
    by (auto split: sum.splits)
  from exec_calibrated [OF Cons.prems(1) step] rest show ?case
    by (rule Cons.IH)
qed

lemma run_with_preset:
  assumes "\<exists>c \<in> set cs. applies_preset c" and "run h dbl cs (d, w) = Inr (d', w')"
  shows "calibrated d'"
  using assms
proof (induction cs arbitrary: d w)
  case Nil
  then show ?case
    by simp
next
  case (Cons c cs)
  from Cons.prems(2) obtain d1 w1
    where step: "exec h dbl c (d, w) = Inr (d1, w1)" and rest: "run h dbl cs (d1, w1) = Inr (d', w')"
    by (auto split: sum.splits)
  show ?case
  proof (cases "applies_preset c")
    case True
    from exec_preset [OF this, of h dbl d w] step have "calibrated d1"
      by auto
    from this rest show ?thesis
      by (rule run_calibrated)
  next
    case False
    with Cons.prems(1) have "\<exists>c \<in> set cs. applies_preset c"
      by auto
    from this rest show ?thesis
      by (rule Cons.IH)
  qed
qed

text \<open>
  Claim C7. The constructor sets both dividers to zero. They are still zero
  after any sequence of calls that applies no preset (no \<^verbatim>\<open>begin\<close>, no
  \<^verbatim>\<open>ina219SetCalibration_*\<close>) and runs to its end; and a call that applies a
  preset leaves both dividers nonzero.
\<close>

theorem dividers_zero_until_preset:
  "ina219_currentDivider_mA (INA219 addr) = 0 \<and> ina219_powerDivider_mW (INA219 addr) = 0
   \<and> ((\<forall>c \<in> set cs. \<not> applies_preset c) \<longrightarrow>
        run h dbl cs (INA219 addr, w) = Inr (d', w') \<longrightarrow>
        ina219_currentDivider_mA d' = 0 \<and> ina219_powerDivider_mW d' = 0)
   \<and> (applies_preset c \<longrightarrow>
        (\<exists>d1 w1. exec h dbl c (d, w) = Inr (d1, w1)
           \<and> ina219_currentDivider_mA d1 \<noteq> 0 \<and> ina219_powerDivider_mW d1 \<noteq> 0))"
proof -
  have zero: "ina219_currentDivider_mA (INA219 addr) = 0 \<and> ina219_powerDivider_mW (INA219 addr) = 0"
    by (simp add: INA219_def)
  have keep: "ina219_currentDivider_mA d' = 0 \<and> ina219_powerDivider_mW d' = 0"
    if "\<forall>c \<in> set cs. \<not> applies_preset c" and "run h dbl cs (INA219 addr, w) = Inr (d', w')"
    using run_without_preset [OF that] zero by simp
  have leave: "\<exists>d1 w1. exec h dbl c (d, w) = Inr (d1, w1)
           \<and> ina219_currentDivider_mA d1 \<noteq> 0 \<and> ina219_powerDivider_mW d1 \<noteq> 0"
    if "applies_preset c"
    using exec_preset [OF that, of h dbl d w] by (auto simp add: calibrated_def)
  from zero keep leave show ?thesis
    by blast
qed

theorem dividers_zero_until_preset_witness:
  "\<not> applies_preset Call_getBusVoltage_raw \<and> \<not> applies_preset Call_getShuntVoltage_mV
   \<and> run datasheet_h binary32 [Call_getBusVoltage_raw, Call_getShuntVoltage_mV]
        (INA219 0x40, idle_wire)
      = Inr (INA219 0x40,
          snd (getShuntVoltage_mV datasheet_h (INA219 0x40)
            (snd (getBusVoltage_raw datasheet_h (INA219 0x40) idle_wire))))
   \<and> ina219_currentDivider_mA (INA219 0x40) = 0 \<and> ina219_powerDivider_mW (INA219 0x40) = 0
   \<and> applies_preset Call_begin
   \<and> (\<exists>d1 w1. exec datasheet_h binary32 Call_begin (INA219 0x40, idle_wire) = Inr (d1, w1)
         \<and> ina219_currentDivider_mA d1 \<noteq> 0 \<and> ina219_powerDivider_mW d1 \<noteq> 0)"
  using dividers_zero_until_preset [where addr = "0x40"
      and cs = "[Call_getBusVoltage_raw, Call_getShuntVoltage_mV]"
      and h = datasheet_h and dbl = binary32 and w = idle_wire and d' = "INA219 0x40"
      and w' = "snd (getShuntVoltage_mV datasheet_h (INA219 0x40)
            (snd (getBusVoltage_raw datasheet_h (INA219 0x40) idle_wire)))"
      and c = Call_begin and d = "INA219 0x40"]
  by simp

text \<open>
  Claim C9. After a sequence of calls that applied a preset, the current
  divider is 10, 25 or 20 and \<^verbatim>\<open>getCurrent_mA\<close> returns a value: its division
  is by a nonzero divider. With the divider at zero, the value of an object no
  preset was applied to, \<^verbatim>\<open>getCurrent_mA\<close> divides by zero.
\<close>

theorem current_division_guarded:
  "((\<exists>c \<in> set cs. applies_preset c) \<longrightarrow>
      run h dbl cs (d, w) = Inr (d', w') \<longrightarrow>
      dbl = binary32 \<or> dbl = binary64 \<longrightarrow>
      ina219_currentDivider_mA d' \<in> {10, 25, 20}
      \<and> (\<exists>r w2. getCurrent_mA h dbl d' w1 = Inr (r, w2)))
   \<and> (ina219_currentDivider_mA d0 = 0 \<longrightarrow> getCurrent_mA h dbl d0 w0 = Inl DivideByZero)"
proof -
  have "ina219_currentDivider_mA d' \<in> {10, 25, 20}
      \<and> (\<exists>r w2. getCurrent_mA h dbl d' w1 = Inr (r, w2))"
    if "\<exists>c \<in> set cs. applies_preset c" and "run h dbl cs (d, w) = Inr (d', w')"
      and "dbl = binary32 \<or> dbl = binary64"
  proof -
    from run_with_preset [OF that(1,2)]
    have n: "ina219_currentDivider_mA d' = 10 \<or> ina219_currentDivider_mA d' = 20
        \<or> ina219_currentDivider_mA d' = 25"
      by (simp add: calibrated_def)
    from getCurrent_mA_calibrated [OF n that(3)] n show ?thesis
      by auto
  qed
  moreover have "getCurrent_mA h dbl d0 w0 = Inl DivideByZero"
    if "ina219_currentDivider_mA d0 = 0"
    using that by (rule getCurrent_mA_uncalibrated)
  ultimately show ?thesis
    by blast
qed

theorem current_division_guarded_witness:
  "(\<exists>c \<in> set [Call_SetCalibration_32V_1A]. applies_preset c)
   \<and> run datasheet_h binary32 [Call_SetCalibration_32V_1A] (INA219 0x40, idle_wire)
      = Inr (fst (ina219SetCalibration_32V_1A datasheet_h (INA219 0x40) idle_wire),
             snd (ina219SetCalibration_32V_1A datasheet_h (INA219 0x40) idle_wire))
   \<and> (binary32 = binary32 \<or> binary32 = binary64)
   \<and> ina219_currentDivider_mA
        (fst (ina219SetCalibration_32V_1A datasheet_h (INA219 0x40) idle_wire)) \<in> {10, 25, 20}
   \<and> (\<exists>r w2. getCurrent_mA datasheet_h binary32
          (fst (ina219SetCalibration_32V_1A datasheet_h (INA219 0x40) idle_wire))
          (snd (ina219SetCalibration_32V_1A datasheet_h (INA219 0x40) idle_wire)) = Inr (r, w2))
   \<and> ina219_currentDivider_mA (INA219 0x40) = 0
   \<and> getCurrent_mA datasheet_h binary32 (INA219 0x40) idle_wire = Inl DivideByZero"
proof -
  have zero: "ina219_currentDivider_mA (INA219 0x40) = 0"
    by (simp add: INA219_def)
  have pre: "\<exists>c \<in> set [Call_SetCalibration_32V_1A]. applies_preset c"
    by simp
  have ran: "run datasheet_h binary32 [Call_SetCalibration_32V_1A] (INA219 0x40, idle_wire)
      = Inr (fst (ina219SetCalibration_32V_1A datasheet_h (INA219 0x40) idle_wire),
             snd (ina219SetCalibration_32V_1A datasheet_h (INA219 0x40) idle_wire))"
    by simp
  have fmt: "binary32 = binary32 \<or> binary32 = binary64"
    by simp
  from current_division_guarded [where cs = "[Call_SetCalibration_32V_1A]"
      and h = datasheet_h and dbl = binary32 and d = "INA219 0x40" and w = idle_wire
      and d' = "fst (ina219SetCalibration_32V_1A datasheet_h (INA219 0x40) idle_wire)"
      and w' = "snd (ina219SetCalibration_32V_1A datasheet_h (INA219 0x40) idle_wire)"
      and ?w1.0 = "snd (ina219SetCalibration_32V_1A datasheet_h (INA219 0x40) idle_wire)"
      and ?d0.0 = "INA219 0x40" and ?w0.0 = idle_wire]
    zero pre ran fmt
  show ?thesis
    by blast
qed

end
